theory Spec2Isabelle
  imports Main
begin

section \<open>The Instagram media inspector of \<^verbatim>\<open>main.py\<close>\<close>

text \<open>
  The development embeds the request path of \<^verbatim>\<open>instagram_inspect\<close>: the URL check, the
  single fetch, the two meta-tag scans of \<^verbatim>\<open>extract_meta_tags\<close>, the primary video or image,
  the scan for inline \<^verbatim>\<open>video_url\<close> and \<^verbatim>\<open>display_url\<close> fragments, and the final
  emptiness check.

  Conventions of the embedding.
  \<^item> A Python \<^verbatim>\<open>str\<close> is a \<^typ>\<open>string\<close> holding its UTF-8 bytes. The patterns of the source
    have ASCII literals and classes that exclude ASCII characters only, and no literal
    under \<^verbatim>\<open>re.IGNORECASE\<close> has a letter with a case variant outside ASCII, so they
    match the same text on bytes as on code points.
  \<^item> What the source takes from libraries is a field of the record \<open>lib\<close>:
    \<^verbatim>\<open>html.unescape\<close>, pydantic's validation of an \<^verbatim>\<open>HttpUrl\<close> field with the
    normalised URL it builds, the Unicode case mapping of \<^verbatim>\<open>str.lower\<close>, the
    character-name table behind the \<^verbatim>\<open>\N{...}\<close> escape, and \<^verbatim>\<open>requests.get\<close>. Theorems
    hold for every such library.
  \<^item> pydantic is the version 2 that \<^verbatim>\<open>str(payload.url)\<close> is written for: a validated
    \<^verbatim>\<open>HttpUrl\<close> field holds a \<^verbatim>\<open>Url\<close> object, whose text is the normalised URL and which
    is never equal to a \<^verbatim>\<open>str\<close>.
  \<^item> Every exception that ends the request is a value of \<open>error\<close>.
\<close>

subsection \<open>Characters\<close>

definition in_range :: "char \<Rightarrow> char \<Rightarrow> char \<Rightarrow> bool" where
  "in_range a b c = ((of_char a :: nat) \<le> of_char c \<and> (of_char c :: nat) \<le> of_char b)"

definition lower_char :: "char \<Rightarrow> char" where
  "lower_char c =
     (if in_range CHR ''A'' CHR ''Z'' c then char_of (of_char c + (32::nat)) else c)"

text \<open>Lower-casing of the ASCII letters.\<close>

definition ascii_lower :: "string \<Rightarrow> string" where
  "ascii_lower s = map lower_char s"

definition is_ascii :: "char \<Rightarrow> bool" where
  "is_ascii c = ((of_char c :: nat) < 128)"

definition backslash :: char where
  "backslash = CHR 0x5C"

definition dquote :: char where
  "dquote = CHR 0x22"

subsection \<open>A backtracking matcher for the patterns of the source\<close>

text \<open>
  The constructors are the constructs the four patterns use. \<open>Lit\<close> is a literal,
  \<open>ILit\<close> a literal under \<^verbatim>\<open>re.IGNORECASE\<close>, \<open>Cls\<close> one character of a class,
  \<open>Plus\<close> and \<open>Star\<close> the greedy repetitions of a class, \<open>Opt\<close> the greedy
  \<^verbatim>\<open>?\<close>, \<open>Alt\<close> the alternatives in their order, \<open>Grp n\<close> the capturing group
  number \<open>n\<close>.
\<close>

type_synonym groups = "nat \<rightharpoonup> string"

type_synonym mstate = "groups \<times> string"

datatype rx =
    Lit string
  | ILit string
  | Cls "char \<Rightarrow> bool"
  | Plus "char \<Rightarrow> bool"
  | Star "char \<Rightarrow> bool"
  | Opt rx
  | Alt "rx list"
  | Seq "rx list"
  | Grp nat rx

text \<open>\<open>strip_prefix f l s\<close> removes the literal \<open>l\<close> from the front of \<open>s\<close>, comparing
  characters after \<open>f\<close>.\<close>

fun strip_prefix :: "(char \<Rightarrow> char) \<Rightarrow> string \<Rightarrow> string \<Rightarrow> string option" where
  "strip_prefix f [] s = Some s"
| "strip_prefix f (a # l) [] = None"
| "strip_prefix f (a # l) (c # s) = (if f a = f c then strip_prefix f l s else None)"

text \<open>\<open>munch P s\<close> lists what is left of \<open>s\<close> after one or more characters of the
  class \<open>P\<close>, the longest run first: the order in which a greedy repetition gives
  characters back.\<close>

fun munch :: "(char \<Rightarrow> bool) \<Rightarrow> string \<Rightarrow> string list" where
  "munch P [] = []"
| "munch P (c # s) = (if P c then munch P s @ [s] else [])"

text \<open>\<open>run r (g, s)\<close> lists every way \<open>r\<close> matches at the front of \<open>s\<close>, as the
  groups captured and the text left, in the order a backtracking matcher tries them.
  Its head is the match that \<^verbatim>\<open>re\<close> reports.\<close>

fun run :: "rx \<Rightarrow> mstate \<Rightarrow> mstate list" where
  "run (Lit l) (g, s) =
     (case strip_prefix (\<lambda>c. c) l s of None \<Rightarrow> [] | Some s' \<Rightarrow> [(g, s')])"
| "run (ILit l) (g, s) =
     (case strip_prefix lower_char l s of None \<Rightarrow> [] | Some s' \<Rightarrow> [(g, s')])"
| "run (Cls P) (g, s) = (case s of [] \<Rightarrow> [] | c # s' \<Rightarrow> if P c then [(g, s')] else [])"
| "run (Plus P) (g, s) = map (Pair g) (munch P s)"
| "run (Star P) (g, s) = map (Pair g) (munch P s @ [s])"
| "run (Opt r) st = run r st @ [st]"
| "run (Alt []) st = []"
| "run (Alt (r # rs)) st = run r st @ run (Alt rs) st"
| "run (Seq []) st = [st]"
| "run (Seq (r # rs)) st = concat (map (run (Seq rs)) (run r st))"
| "run (Grp n r) (g, s) =
     map (\<lambda>(g', s'). (g'(n \<mapsto> take (length s - length s') s), s')) (run r (g, s))"

text \<open>\<^verbatim>\<open>pattern.match(s)\<close>: a match at the start of \<open>s\<close>, of any length.\<close>

definition re_match :: "rx \<Rightarrow> string \<Rightarrow> bool" where
  "re_match r s = (run r (Map.empty, s) \<noteq> [])"

text \<open>\<^verbatim>\<open>re.finditer\<close>: the matches from left to right, each search starting where the
  last match ended. No pattern of the source matches the empty string; after an empty
  match the search moves on by one character.\<close>

function finditer :: "rx \<Rightarrow> string \<Rightarrow> groups list" where
  "finditer r s =
     (case run r (Map.empty, s) of
        [] \<Rightarrow> (case s of [] \<Rightarrow> [] | c # t \<Rightarrow> finditer r t)
      | (g, s') # alts \<Rightarrow>
          g # (if length s' < length s then finditer r s'
               else (case s of [] \<Rightarrow> [] | c # t \<Rightarrow> finditer r t)))"
  by pat_completeness auto
termination
  by (relation "measure (\<lambda>(r, s). length s)") auto

declare finditer.simps [simp del]

text \<open>\<^verbatim>\<open>m.group(n)\<close>, for a group that took part in the match.\<close>

definition grp :: "groups \<Rightarrow> nat \<Rightarrow> string" where
  "grp g n = (case g n of None \<Rightarrow> [] | Some t \<Rightarrow> t)"

text \<open>\<^verbatim>\<open>pattern.findall(s)\<close> for a pattern with two groups: the pairs of their texts.\<close>

definition findall :: "rx \<Rightarrow> string \<Rightarrow> (string \<times> string) list" where
  "findall r s = map (\<lambda>g. (grp g 1, grp g 2)) (finditer r s)"

subsection \<open>The patterns\<close>

definition is_id :: "char \<Rightarrow> bool" where
  "is_id c =
     (in_range CHR ''A'' CHR ''Z'' c \<or> in_range CHR ''a'' CHR ''z'' c \<or>
      in_range CHR ''0'' CHR ''9'' c \<or> c = CHR ''_'' \<or> c = CHR ''-'')"

text \<open>
  \<^verbatim>\<open>^(https?://)?(www\.)?instagram\.com/(p|reel|reels|tv)/[A-Za-z0-9_-]+/?\<close>, compiled
  without flags. The anchor \<^verbatim>\<open>^\<close> is what \<^verbatim>\<open>match\<close> does anyway.
\<close>

definition INSTAGRAM_URL_RE :: rx where
  "INSTAGRAM_URL_RE = Seq [
     Opt (Grp 1 (Seq [Lit ''http'', Opt (Lit ''s''), Lit ''://''])),
     Opt (Grp 2 (Seq [Lit ''www'', Lit ''.''])),
     Lit ''instagram'', Lit ''.'', Lit ''com/'',
     Grp 3 (Alt [Lit ''p'', Lit ''reel'', Lit ''reels'', Lit ''tv'']),
     Lit ''/'', Plus is_id, Opt (Lit ''/'')]"

definition is_quote :: "char \<Rightarrow> bool" where
  "is_quote c = (c = dquote \<or> c = CHR 0x27)"

definition not_gt :: "char \<Rightarrow> bool" where
  "not_gt c = (c \<noteq> CHR ''>'')"

definition not_quote :: "char \<Rightarrow> bool" where
  "not_quote c = (\<not> is_quote c)"

text \<open>
  \<^verbatim>\<open><meta[^>]+property=["']([^"']+)["'][^>]+content=["']([^"']+)["'][^>]*>\<close> and the same
  with \<^verbatim>\<open>name=\<close>, both under \<^verbatim>\<open>re.IGNORECASE\<close>.
\<close>

definition attr_pattern :: "string \<Rightarrow> rx" where
  "attr_pattern attr = Seq [
     ILit ''<meta'', Plus not_gt, ILit attr, Cls is_quote,
     Grp 1 (Plus not_quote), Cls is_quote,
     Plus not_gt, ILit ''content='', Cls is_quote,
     Grp 2 (Plus not_quote), Cls is_quote,
     Star not_gt, Lit ''>'']"

definition meta_pattern :: rx where
  "meta_pattern = attr_pattern ''property=''"

definition name_pattern :: rx where
  "name_pattern = attr_pattern ''name=''"

text \<open>
  \<^verbatim>\<open>"(video_url|display_url)":"(https?:\\/\\/[^\"]+)"\<close>: the value starts with
  \<^verbatim>\<open>http:\/\/\<close> or \<^verbatim>\<open>https:\/\/\<close>, backslashes included, and runs to the next
  double quote.
\<close>

definition inline_pattern :: rx where
  "inline_pattern = Seq [
     Lit [dquote],
     Grp 1 (Alt [Lit ''video_url'', Lit ''display_url'']),
     Lit [dquote], Lit '':'', Lit [dquote],
     Grp 2 (Seq [Lit ''http'', Opt (Lit ''s''), Lit '':'',
                 Lit [backslash], Lit ''/'', Lit [backslash], Lit ''/'',
                 Plus (\<lambda>c. c \<noteq> dquote)]),
     Lit [dquote]]"

subsection \<open>The libraries and the errors\<close>

datatype fetch_result =
    RequestException
  | Response int string

text \<open>
  \<open>html_unescape\<close> is \<^verbatim>\<open>html.unescape\<close>. \<open>HttpUrl\<close> is pydantic's validation of a string
  for an \<^verbatim>\<open>HttpUrl\<close> field: \<open>None\<close> when it refuses the string, else the text of the
  URL it builds, which is the string normalised (scheme and host in lower case, a path
  of at least \<^verbatim>\<open>/\<close>, no default port). \<open>unicode_lower\<close> is \<^verbatim>\<open>str.lower\<close> on text that
  is not plain ASCII. \<open>getcode\<close> maps a character name to its code point.
  \<open>requests_get\<close> is the outcome of \<^verbatim>\<open>requests.get\<close> on a URL: the exception, or the
  status code and the text of the response.
\<close>

record lib =
  html_unescape :: "string \<Rightarrow> string"
  HttpUrl :: "string \<Rightarrow> string option"
  unicode_lower :: "string \<Rightarrow> string"
  getcode :: "string \<Rightarrow> nat option"
  requests_get :: "string \<Rightarrow> fetch_result"

datatype error =
    HTTPException int string
  | RequestValidationError
  | ValidationError
  | UnicodeDecodeError

text \<open>\<^verbatim>\<open>s.lower()\<close>: on ASCII text the letters \<^verbatim>\<open>A\<close> to \<^verbatim>\<open>Z\<close> are lower-cased; other text
  is mapped by the Unicode tables of the library.\<close>

definition str_lower :: "lib \<Rightarrow> string \<Rightarrow> string" where
  "str_lower L s = (if list_all is_ascii s then ascii_lower s else unicode_lower L s)"

subsection \<open>\<^verbatim>\<open>extract_meta_tags\<close>\<close>

definition extract_meta_tags :: "lib \<Rightarrow> string \<Rightarrow> (string \<rightharpoonup> string)" where
  "extract_meta_tags L html =
     (let tags = Map.empty;
          tags = foldl (\<lambda>tags (prop, content). tags(str_lower L prop \<mapsto> html_unescape L content))
                   tags (findall meta_pattern html);
          tags = foldl (\<lambda>tags (name, content). tags(str_lower L name \<mapsto> html_unescape L content))
                   tags (findall name_pattern html)
      in tags)"

subsection \<open>Decoding an inline value\<close>

text \<open>
  \<^verbatim>\<open>m.group(2).encode('utf-8').decode('unicode_escape')\<close>. The codec reads bytes: a byte
  other than a backslash is the code point of the same number, a backslash starts an
  escape, an escape it does not know stays as it is, and a broken escape raises
  \<^verbatim>\<open>UnicodeDecodeError\<close>. \<open>escape\<close> decodes what follows one backslash: the code points
  written and the bytes left.
\<close>

definition hex_digit :: "char \<Rightarrow> nat option" where
  "hex_digit c =
     (if in_range CHR ''0'' CHR ''9'' c then Some (of_char c - 48)
      else if in_range CHR ''a'' CHR ''f'' c then Some (of_char c - 87)
      else if in_range CHR ''A'' CHR ''F'' c then Some (of_char c - 55)
      else None)"

fun hexescape :: "nat \<Rightarrow> nat \<Rightarrow> string \<Rightarrow> (nat \<times> string) option" where
  "hexescape 0 ch s = Some (ch, s)"
| "hexescape (Suc n) ch [] = None"
| "hexescape (Suc n) ch (c # s) =
     (case hex_digit c of None \<Rightarrow> None | Some d \<Rightarrow> hexescape n (ch * 16 + d) s)"

definition is_octal :: "char \<Rightarrow> bool" where
  "is_octal c = in_range CHR ''0'' CHR ''7'' c"

fun octescape :: "nat \<Rightarrow> nat \<Rightarrow> string \<Rightarrow> nat \<times> string" where
  "octescape 0 ch s = (ch, s)"
| "octescape (Suc n) ch [] = (ch, [])"
| "octescape (Suc n) ch (c # s) =
     (if is_octal c then octescape n (ch * 8 + (of_char c - 48)) s else (ch, c # s))"

definition simple_escape :: "char \<Rightarrow> nat option" where
  "simple_escape c =
     (if c = backslash then Some 92
      else if c = CHR 0x27 then Some 39
      else if c = dquote then Some 34
      else if c = CHR ''b'' then Some 8
      else if c = CHR ''f'' then Some 12
      else if c = CHR ''t'' then Some 9
      else if c = CHR ''n'' then Some 10
      else if c = CHR ''r'' then Some 13
      else if c = CHR ''v'' then Some 11
      else if c = CHR ''a'' then Some 7
      else None)"

definition hex_count :: "char \<Rightarrow> nat option" where
  "hex_count c =
     (if c = CHR ''x'' then Some 2
      else if c = CHR ''u'' then Some 4
      else if c = CHR ''U'' then Some 8
      else None)"

definition hex_escape :: "nat \<Rightarrow> string \<Rightarrow> (nat list \<times> string) option" where
  "hex_escape n s =
     (case hexescape n 0 s of
        None \<Rightarrow> None
      | Some (ch, s') \<Rightarrow> (if ch > 0x10FFFF then None else Some ([ch], s')))"

definition name_escape :: "lib \<Rightarrow> string \<Rightarrow> (nat list \<times> string) option" where
  "name_escape L s =
     (case s of
        [] \<Rightarrow> None
      | b # t \<Rightarrow>
          (if b = CHR ''{'' then
             (let name = takeWhile (\<lambda>x. x \<noteq> CHR ''}'') t;
                  rest = dropWhile (\<lambda>x. x \<noteq> CHR ''}'') t
              in (if rest = [] \<or> name = [] then None
                  else (case getcode L name of
                          None \<Rightarrow> None
                        | Some ch \<Rightarrow> Some ([ch], tl rest))))
           else None))"

definition escape :: "lib \<Rightarrow> char \<Rightarrow> string \<Rightarrow> (nat list \<times> string) option" where
  "escape L c s =
     (if c = CHR 0x0A then Some ([], s)
      else (case simple_escape c of
              Some ch \<Rightarrow> Some ([ch], s)
            | None \<Rightarrow>
                (if is_octal c then
                   (case octescape 2 (of_char c - 48) s of (ch, s') \<Rightarrow> Some ([ch], s'))
                 else (case hex_count c of
                         Some n \<Rightarrow> hex_escape n s
                       | None \<Rightarrow>
                           (if c = CHR ''N'' then name_escape L s
                            else Some ([92, of_char c], s))))))"

lemma hexescape_length: "hexescape n ch s = Some (v, s') \<Longrightarrow> length s' \<le> length s"
  by (induction n ch s rule: hexescape.induct) (auto split: option.splits)

lemma octescape_length: "octescape n ch s = (v, s') \<Longrightarrow> length s' \<le> length s"
  by (induction n ch s rule: octescape.induct) (auto split: if_splits)

lemma tl_dropWhile_length: "length (tl (dropWhile P t)) \<le> length t"
  using length_dropWhile_le [of P t] by simp

lemma escape_length: "escape L c s = Some (out, s') \<Longrightarrow> length s' \<le> length s"
  unfolding escape_def hex_escape_def name_escape_def
  by (auto split: if_splits option.splits prod.splits list.splits
      dest: hexescape_length octescape_length
      simp: Let_def tl_dropWhile_length le_SucI simp del: length_tl)

function unicode_escape :: "lib \<Rightarrow> string \<Rightarrow> nat list option" where
  "unicode_escape L [] = Some []"
| "unicode_escape L (c # s) =
     (if c \<noteq> backslash then map_option ((#) (of_char c)) (unicode_escape L s)
      else case s of
        [] \<Rightarrow> None
      | e # t \<Rightarrow>
          (case escape L e t of
             None \<Rightarrow> None
           | Some (out, s') \<Rightarrow> map_option ((@) out) (unicode_escape L s')))"
  by pat_completeness auto
termination
  by (relation "measure (\<lambda>(L, s). length s)") (auto dest: escape_length)

text \<open>The decoded code points, as the UTF-8 bytes of the resulting \<^verbatim>\<open>str\<close>.\<close>

definition utf8 :: "nat \<Rightarrow> string" where
  "utf8 n =
     (if n < 0x80 then [char_of n]
      else if n < 0x800 then [char_of (0xC0 + n div 64), char_of (0x80 + n mod 64)]
      else if n < 0x10000 then
        [char_of (0xE0 + n div 4096), char_of (0x80 + n div 64 mod 64), char_of (0x80 + n mod 64)]
      else
        [char_of (0xF0 + n div 262144), char_of (0x80 + n div 4096 mod 64),
         char_of (0x80 + n div 64 mod 64), char_of (0x80 + n mod 64)])"

definition decode :: "lib \<Rightarrow> string \<Rightarrow> string option" where
  "decode L s = map_option (\<lambda>cps. concat (map utf8 cps)) (unicode_escape L s)"

text \<open>\<^verbatim>\<open>raw.replace('\\/', '/')\<close>: every backslash followed by a slash becomes a slash,
  from left to right.\<close>

fun replace_escaped_slash :: "string \<Rightarrow> string" where
  "replace_escaped_slash (a # b # s) =
     (if a = backslash \<and> b = CHR ''/'' then CHR ''/'' # replace_escaped_slash s
      else a # replace_escaped_slash (b # s))"
| "replace_escaped_slash s = s"

subsection \<open>\<^verbatim>\<open>MediaItem\<close>\<close>

text \<open>The value of a validated \<^verbatim>\<open>HttpUrl\<close> field: a \<^verbatim>\<open>Url\<close> object; \<open>str\<close> is its text,
  the normalised URL.\<close>

datatype Url = Url (str: string)

record MediaItem =
  type :: string
  url :: Url
  thumbnail :: "Url option"

definition validate_url :: "lib \<Rightarrow> string \<Rightarrow> error + Url" where
  "validate_url L u = (case HttpUrl L u of None \<Rightarrow> Inl ValidationError | Some n \<Rightarrow> Inr (Url n))"

text \<open>\<^verbatim>\<open>MediaItem(type=t, url=u, thumbnail=th)\<close>: pydantic validates the two
  \<^verbatim>\<open>HttpUrl\<close> fields, keeps the URLs it has built from them, and raises
  \<^verbatim>\<open>ValidationError\<close> when it refuses one; \<^verbatim>\<open>None\<close> is a valid thumbnail.\<close>

definition new_MediaItem :: "lib \<Rightarrow> string \<Rightarrow> string \<Rightarrow> string option \<Rightarrow> error + MediaItem" where
  "new_MediaItem L t u th =
     (case validate_url L u of
        Inl e \<Rightarrow> Inl e
      | Inr n \<Rightarrow>
          (case th of
             None \<Rightarrow> Inr \<lparr>type = t, url = n, thumbnail = None\<rparr>
           | Some x \<Rightarrow>
               (case validate_url L x of
                  Inl e \<Rightarrow> Inl e
                | Inr m \<Rightarrow> Inr \<lparr>type = t, url = n, thumbnail = Some m\<rparr>)))"

text \<open>\<^verbatim>\<open>x.url != candidate\<close>, of a \<^verbatim>\<open>Url\<close> and a \<^verbatim>\<open>str\<close>. pydantic's \<^verbatim>\<open>Url\<close> is equal to
  a \<^verbatim>\<open>Url\<close> of the same text and to nothing else; against a \<^verbatim>\<open>str\<close> Python falls back
  to the identity of the two objects, which differ. The comparison is true whatever the
  two texts are.\<close>

definition url_ne_str :: "Url \<Rightarrow> string \<Rightarrow> bool" where
  "url_ne_str x c = True"

subsection \<open>\<^verbatim>\<open>instagram_inspect\<close>\<close>

text \<open>\<^verbatim>\<open>a or b\<close> on optional strings: \<^verbatim>\<open>None\<close> and the empty string are false.\<close>

definition truthy :: "string option \<Rightarrow> bool" where
  "truthy a = (case a of None \<Rightarrow> False | Some v \<Rightarrow> v \<noteq> [])"

definition py_or :: "string option \<Rightarrow> string option \<Rightarrow> string option" where
  "py_or a b = (if truthy a then a else b)"

definition og_video :: "(string \<rightharpoonup> string) \<Rightarrow> string option" where
  "og_video tags = py_or (tags ''og:video'') (tags ''twitter:player:stream'')"

definition og_image :: "(string \<rightharpoonup> string) \<Rightarrow> string option" where
  "og_image tags = py_or (tags ''og:image'') (tags ''twitter:image'')"

text \<open>Lines 123 to 136: the list before the inline scan.\<close>

definition primary_media :: "lib \<Rightarrow> (string \<rightharpoonup> string) \<Rightarrow> error + MediaItem list" where
  "primary_media L tags =
     (case (case og_video tags of
              None \<Rightarrow> Inr []
            | Some v \<Rightarrow>
                (if v \<noteq> [] then
                   (case new_MediaItem L ''video'' v (og_image tags) of
                      Inl e \<Rightarrow> Inl e
                    | Inr item \<Rightarrow> Inr [item])
                 else Inr [])) of
        Inl e \<Rightarrow> Inl e
      | Inr media \<Rightarrow>
          (case og_image tags of
             None \<Rightarrow> Inr media
           | Some i \<Rightarrow>
               (if i \<noteq> [] \<and> media = [] then
                  (case new_MediaItem L ''image'' i (Some i) of
                     Inl e \<Rightarrow> Inl e
                   | Inr item \<Rightarrow> Inr (media @ [item]))
                else Inr media)))"

text \<open>Lines 141 to 149: the body of the loop, for one match \<open>m\<close> and the list so far.\<close>

definition inline_step ::
  "lib \<Rightarrow> string option \<Rightarrow> MediaItem list \<Rightarrow> groups \<Rightarrow> error + MediaItem list" where
  "inline_step L img media m =
     (let kind = grp m 1 in
      case decode L (grp m 2) of
        None \<Rightarrow> Inl UnicodeDecodeError
      | Some raw \<Rightarrow>
          (let candidate = replace_escaped_slash raw in
           if kind = ''video_url'' then
             (if list_all (\<lambda>x. url_ne_str (url x) candidate) media then
                (case new_MediaItem L ''video'' candidate img of
                   Inl e \<Rightarrow> Inl e
                 | Inr item \<Rightarrow> Inr (media @ [item]))
              else Inr media)
           else
             (if list_all (\<lambda>x. url_ne_str (url x) candidate) media then
                (case new_MediaItem L ''image'' candidate (Some candidate) of
                   Inl e \<Rightarrow> Inl e
                 | Inr item \<Rightarrow> Inr (media @ [item]))
              else Inr media)))"

fun inline_scan ::
  "lib \<Rightarrow> string option \<Rightarrow> MediaItem list \<Rightarrow> groups list \<Rightarrow> error + MediaItem list" where
  "inline_scan L img media [] = Inr media"
| "inline_scan L img media (m # ms) =
     (case inline_step L img media m of
        Inl e \<Rightarrow> Inl e
      | Inr media' \<Rightarrow> inline_scan L img media' ms)"

text \<open>Lines 121 to 149: the media list assembled from the text of the page.\<close>

definition assemble :: "lib \<Rightarrow> string \<Rightarrow> error + MediaItem list" where
  "assemble L html =
     (let tags = extract_meta_tags L html in
      case primary_media L tags of
        Inl e \<Rightarrow> Inl e
      | Inr media \<Rightarrow> inline_scan L (og_image tags) media (finditer inline_pattern html))"

text \<open>Lines 120 to 155: from the text of the page to the response.\<close>

definition parse_page :: "lib \<Rightarrow> string \<Rightarrow> error + MediaItem list" where
  "parse_page L html =
     (case assemble L html of
        Inl e \<Rightarrow> Inl e
      | Inr media \<Rightarrow>
          (if media = [] then
             Inl (HTTPException 422
               ''Could not extract media from this URL. It may be private or blocked.'')
           else Inr media))"

text \<open>The function, on \<^verbatim>\<open>str(payload.url)\<close>. The first component of the result lists the
  URLs it has fetched; the second is the exception raised or the list returned.\<close>

definition instagram_inspect :: "lib \<Rightarrow> string \<Rightarrow> string list \<times> (error + MediaItem list)" where
  "instagram_inspect L u =
     (if \<not> re_match INSTAGRAM_URL_RE u then
        ([], Inl (HTTPException 400 ''Please provide a valid Instagram post/reel URL.''))
      else
        (case requests_get L u of
           RequestException \<Rightarrow>
             ([u], Inl (HTTPException 502 ''Failed to fetch the Instagram page.''))
         | Response status_code text \<Rightarrow>
             (if status_code \<noteq> 200 then
                ([u], Inl (HTTPException status_code ''Instagram responded with an error.''))
              else ([u], parse_page L text))))"

text \<open>The route of lines 101 and 102, with the request model of lines 21 and 22. The
  framework builds the \<^verbatim>\<open>InspectRequest\<close> from the body of the request before it calls
  the function: the \<^verbatim>\<open>url\<close> of the body has to validate as an \<^verbatim>\<open>HttpUrl\<close>, and the
  function works on \<^verbatim>\<open>str(payload.url)\<close>, the text of the URL that pydantic has built. A
  body that does not validate is answered with the validation error of the request, and
  the function is not called.\<close>

definition post_inspect :: "lib \<Rightarrow> string \<Rightarrow> string list \<times> (error + MediaItem list)" where
  "post_inspect L body_url =
     (case HttpUrl L body_url of
        None \<Rightarrow> ([], Inl RequestValidationError)
      | Some u \<Rightarrow> instagram_inspect L u)"

subsection \<open>A library for the examples\<close>

text \<open>
  The examples run on a library that leaves text without entities alone, knows no
  character name, answers every fetch with the given status code and body, and
  validates a URL as follows: the scheme is \<^verbatim>\<open>http\<close> or \<^verbatim>\<open>https\<close> in any letter case,
  the host that follows \<^verbatim>\<open>://\<close> is not empty, scheme and host are lower-cased, and an
  empty path becomes \<^verbatim>\<open>/\<close>. On the URLs of the examples, which have no port, no user
  and ASCII text only, this is what pydantic builds.
\<close>

definition authority_end :: "char \<Rightarrow> bool" where
  "authority_end c = (c = CHR ''/'' \<or> c = CHR ''?'' \<or> c = CHR ''#'')"

definition example_HttpUrl :: "string \<Rightarrow> string option" where
  "example_HttpUrl u =
     (case run (Seq [ILit ''http'', Opt (ILit ''s''), Lit ''://'']) (Map.empty, u) of
        [] \<Rightarrow> None
      | (g, rest) # alts \<Rightarrow>
          (let scheme = take (length u - length rest) u;
               host = takeWhile (\<lambda>c. \<not> authority_end c) rest;
               tail = dropWhile (\<lambda>c. \<not> authority_end c) rest
           in if host = [] then None
              else Some (ascii_lower scheme @ ascii_lower host @
                     (case tail of
                        [] \<Rightarrow> ''/''
                      | c # cs \<Rightarrow> if c = CHR ''/'' then tail else CHR ''/'' # tail))))"

definition example_lib :: "int \<Rightarrow> string \<Rightarrow> lib" where
  "example_lib status_code body =
     \<lparr>html_unescape = (\<lambda>s. s), HttpUrl = example_HttpUrl, unicode_lower = (\<lambda>s. s),
      getcode = (\<lambda>n. None), requests_get = (\<lambda>u. Response status_code body)\<rparr>"

definition example_url :: string where
  "example_url = ''https://www.instagram.com/p/abc/''"

text \<open>\<^verbatim>\<open>https:\/\/\<close>, as an inline value starts.\<close>

definition escaped_scheme :: string where
  "escaped_scheme = ''https:'' @ [backslash] @ ''/'' @ [backslash] @ ''/''"

section \<open>Properties\<close>

subsection \<open>Shared facts\<close>

lemma example_url_match: "re_match INSTAGRAM_URL_RE example_url"
  by code_simp

lemma example_lib_get: "requests_get (example_lib c b) u = Response c b"
  by (simp add: example_lib_def)

lemma url_ne_str_all: "list_all (\<lambda>x. url_ne_str (url x) c) media"
  by (simp add: url_ne_str_def list_all_iff)

lemma inline_step_cases:
  "inline_step L img media m = Inr media' \<Longrightarrow> \<exists>item. media' = media @ [item]"
  by (auto simp: inline_step_def Let_def url_ne_str_all split: option.splits if_splits sum.splits)

lemma inline_step_no_http: "inline_step L img media m \<noteq> Inl (HTTPException c d)"
  by (auto simp: inline_step_def Let_def new_MediaItem_def validate_url_def
      split: option.splits if_splits sum.splits)

lemma inline_scan_no_http: "inline_scan L img media ms \<noteq> Inl (HTTPException c d)"
  by (induction ms arbitrary: media) (auto simp: inline_step_no_http split: sum.splits)

lemma primary_media_no_http: "primary_media L tags \<noteq> Inl (HTTPException c d)"
  by (auto simp: primary_media_def new_MediaItem_def validate_url_def
      split: option.splits if_splits sum.splits)

lemma assemble_no_http: "assemble L html \<noteq> Inl (HTTPException c d)"
  by (auto simp: assemble_def Let_def primary_media_no_http inline_scan_no_http
      split: sum.splits)

subsection \<open>The upstream status code\<close>

text \<open>
  C3, as amended. After a URL that passes the check and a fetch that returns a response:
  if the status code is not 200, the request fails with an \<^verbatim>\<open>HTTPException\<close> of that
  same status code and the message \<^verbatim>\<open>Instagram responded with an error.\<close>; if it is
  200, the body is parsed and the outcome of the request is the outcome of the parse.
\<close>

theorem upstream_status:
  assumes "re_match INSTAGRAM_URL_RE u" and "requests_get L u = Response status_code body"
  shows "(status_code \<noteq> 200 \<longrightarrow>
            instagram_inspect L u =
              ([u], Inl (HTTPException status_code ''Instagram responded with an error.''))) \<and>
         (status_code = 200 \<longrightarrow> instagram_inspect L u = ([u], parse_page L body))"
  using assms by (simp add: instagram_inspect_def)

theorem upstream_status_witness:
  "instagram_inspect (example_lib 404 '''') example_url =
     ([example_url], Inl (HTTPException 404 ''Instagram responded with an error.'')) \<and>
   instagram_inspect (example_lib 200 '''') example_url =
     ([example_url], parse_page (example_lib 200 '''') '''')"
  using upstream_status [OF example_url_match example_lib_get, of 404 "''''"]
    upstream_status [OF example_url_match example_lib_get, of 200 "''''"]
  by simp

text \<open>
  The claim as it stands fails on any 2xx status other than 200: a response with
  status 201 whose body holds an image tag is refused with status 201, although the
  same body parses to one media item.
\<close>

theorem upstream_status_2xx_counterexample:
  \<open>instagram_inspect
      (example_lib 201 ''<meta property="og:image" content="https://x/pic.jpg">'') example_url =
     ([example_url], Inl (HTTPException 201 ''Instagram responded with an error.'')) \<and>
   parse_page (example_lib 201 ''<meta property="og:image" content="https://x/pic.jpg">'')
      ''<meta property="og:image" content="https://x/pic.jpg">'' =
     Inr [\<lparr>type = ''image'', url = Url ''https://x/pic.jpg'',
           thumbnail = Some (Url ''https://x/pic.jpg'')\<rparr>]\<close>
  by code_simp

subsection \<open>No media\<close>

text \<open>
  C8. The request ends in the \<^verbatim>\<open>HTTPException\<close> with status 422 and the message
  \<^verbatim>\<open>Could not extract media from this URL. It may be private or blocked.\<close> if and only
  if the URL passed the check, the fetch returned status 200 and the media list
  assembled from the body is empty; and a list that the request returns is never empty.
\<close>

theorem no_media_422:
  "(snd (instagram_inspect L u) =
      Inl (HTTPException 422
        ''Could not extract media from this URL. It may be private or blocked.'')) =
   (re_match INSTAGRAM_URL_RE u \<and>
    (\<exists>html. requests_get L u = Response 200 html \<and> assemble L html = Inr [])) \<and>
   (\<forall>media. snd (instagram_inspect L u) = Inr media \<longrightarrow> media \<noteq> [])"
  by (auto simp: instagram_inspect_def parse_page_def assemble_no_http
      split: fetch_result.splits sum.splits if_splits)

lemma assemble_empty_page: "assemble (example_lib 200 '''') '''' = Inr []"
  by code_simp

theorem no_media_422_witness:
  "assemble (example_lib 200 '''') '''' = Inr [] \<and>
   snd (instagram_inspect (example_lib 200 '''') example_url) =
     Inl (HTTPException 422
        ''Could not extract media from this URL. It may be private or blocked.'')"
  using no_media_422 [of "example_lib 200 ''''" example_url]
    example_url_match assemble_empty_page example_lib_get [of 200 "''''" example_url]
  by blast

subsection \<open>What the URL pattern accepts\<close>

text \<open>
  The shape of an accepted URL, in the words of the specification but with the letter
  case the pattern has: an optional \<^verbatim>\<open>http://\<close> or \<^verbatim>\<open>https://\<close>, an optional
  \<^verbatim>\<open>www.\<close>, the host \<^verbatim>\<open>instagram.com\<close>, one of the path segments \<^verbatim>\<open>p\<close>,
  \<^verbatim>\<open>reel\<close>, \<^verbatim>\<open>reels\<close>, \<^verbatim>\<open>tv\<close>, and an identifier of at least one letter, digit,
  underscore or hyphen; anything may follow.
\<close>

definition instagram_shape :: "string \<Rightarrow> bool" where
  "instagram_shape u =
     (\<exists>scheme \<in> {'''', ''http://'', ''https://''}. \<exists>www \<in> {'''', ''www.''}.
      \<exists>kind \<in> {''p'', ''reel'', ''reels'', ''tv''}. \<exists>ident rest.
        ident \<noteq> [] \<and> list_all is_id ident \<and>
        u = scheme @ www @ ''instagram.com/'' @ kind @ ''/'' @ ident @ rest)"

text \<open>\<open>rests\<close> is \<open>run\<close> without the groups: the texts left after a match.\<close>

fun rests :: "rx \<Rightarrow> string \<Rightarrow> string list" where
  "rests (Lit l) s = (case strip_prefix (\<lambda>c. c) l s of None \<Rightarrow> [] | Some s' \<Rightarrow> [s'])"
| "rests (ILit l) s = (case strip_prefix lower_char l s of None \<Rightarrow> [] | Some s' \<Rightarrow> [s'])"
| "rests (Cls P) s = (case s of [] \<Rightarrow> [] | c # s' \<Rightarrow> if P c then [s'] else [])"
| "rests (Plus P) s = munch P s"
| "rests (Star P) s = munch P s @ [s]"
| "rests (Opt r) s = rests r s @ [s]"
| "rests (Alt []) s = []"
| "rests (Alt (r # rs)) s = rests r s @ rests (Alt rs) s"
| "rests (Seq []) s = [s]"
| "rests (Seq (r # rs)) s = concat (map (rests (Seq rs)) (rests r s))"
| "rests (Grp n r) s = rests r s"

definition acc :: "rx list \<Rightarrow> string \<Rightarrow> bool" where
  "acc rs s = (rests (Seq rs) s \<noteq> [])"

definition path_rx :: "rx list" where
  "path_rx = [Lit ''instagram'', Lit ''.'', Lit ''com/'',
     Grp 3 (Alt [Lit ''p'', Lit ''reel'', Lit ''reels'', Lit ''tv'']),
     Lit ''/'', Plus is_id, Opt (Lit ''/'')]"

definition path_ok :: "string \<Rightarrow> bool" where
  "path_ok s =
     (\<exists>kind \<in> {''p'', ''reel'', ''reels'', ''tv''}. \<exists>c t.
        is_id c \<and> s = ''instagram.com/'' @ kind @ ''/'' @ c # t)"

lemma run_rests: "map snd (run r st) = rests r (snd st)"
proof (induction r st rule: run.induct)
  case (10 r rs st)
  have "map snd (run (Seq (r # rs)) st) =
      concat (map (\<lambda>x. map snd (run (Seq rs) x)) (run r st))"
    by (simp add: map_concat comp_def)
  also have "\<dots> = concat (map (\<lambda>x. rests (Seq rs) (snd x)) (run r st))"
    using "10.IH"(2) by (metis (no_types, lifting) map_eq_conv)
  also have "\<dots> = concat (map (rests (Seq rs)) (map snd (run r st)))"
    by (simp add: comp_def)
  finally show ?case using "10.IH"(1) by simp
qed (auto split: option.splits list.splits simp: comp_def case_prod_beta)

lemma re_match_acc: "re_match (Seq rs) s = acc rs s"
  using run_rests [of "Seq rs" "(Map.empty, s)"]
  by (auto simp: re_match_def acc_def simp flip: map_is_Nil_conv)

lemma strip_prefix_iff: "(strip_prefix (\<lambda>c. c) l s = Some s') = (s = l @ s')"
  by (induction "\<lambda>c::char. c" l s rule: strip_prefix.induct) auto

lemma concat_nonempty: "(concat (map f xs) \<noteq> []) = (\<exists>x \<in> set xs. f x \<noteq> [])"
  by (induction xs) auto

lemma acc_Cons: "acc (r # rs) s = (\<exists>s' \<in> set (rests r s). acc rs s')"
  by (simp add: acc_def concat_nonempty)

lemma acc_Nil: "acc [] s = True"
  by (simp add: acc_def)

lemma acc_Lit: "acc (Lit l # rs) s = (\<exists>s'. s = l @ s' \<and> acc rs s')"
proof (cases "strip_prefix (\<lambda>c. c) l s")
  case None
  then have "\<And>s'. s \<noteq> l @ s'" using strip_prefix_iff [of l s] by auto
  with None show ?thesis by (simp add: acc_Cons)
next
  case (Some t)
  then have "s = l @ t" by (simp add: strip_prefix_iff)
  with Some show ?thesis by (auto simp: acc_Cons)
qed

lemma acc_Opt: "acc (Opt r # rs) s = (acc (r # rs) s \<or> acc rs s)"
  by (auto simp: acc_Cons)

lemma acc_Grp: "acc (Grp n r # rs) s = acc (r # rs) s"
  by (simp add: acc_Cons)

lemma acc_Alt_Nil: "acc (Alt [] # rs) s = False"
  by (simp add: acc_Cons)

lemma acc_Alt_Cons: "acc (Alt (r # rs') # rs) s = (acc (r # rs) s \<or> acc (Alt rs' # rs) s)"
  by (auto simp: acc_Cons)

lemma rests_Seq_append:
  "set (rests (Seq (rs' @ rs)) s) = (\<Union>s' \<in> set (rests (Seq rs') s). set (rests (Seq rs) s'))"
  by (induction rs' arbitrary: s) auto

lemma acc_Seq: "acc (Seq rs' # rs) s = acc (rs' @ rs) s"
proof -
  have "acc (rs' @ rs) s = (set (rests (Seq (rs' @ rs)) s) \<noteq> {})"
    by (simp add: acc_def)
  also have "\<dots> = (\<exists>s' \<in> set (rests (Seq rs') s). set (rests (Seq rs) s') \<noteq> {})"
    by (simp only: rests_Seq_append) auto
  finally show ?thesis by (simp add: acc_Cons acc_def)
qed

lemma acc_Plus_last: "acc [Plus P, Opt r] s = (\<exists>c t. P c \<and> s = c # t)"
  by (cases s) (auto simp: acc_Cons acc_Nil acc_Opt)

lemmas acc_simps = acc_Nil acc_Lit acc_Opt acc_Grp acc_Alt_Nil acc_Alt_Cons acc_Seq
  acc_Plus_last append.simps

lemma acc_path: "acc path_rx s = path_ok s"
  unfolding path_rx_def path_ok_def
  by (simp only: acc_simps) auto

lemma acc_Opt2:
  "acc (Opt (Grp n (Seq [Lit a, Lit b])) # rs) s =
     (acc rs s \<or> (\<exists>s'. s = a @ b @ s' \<and> acc rs s'))"
  by (simp only: acc_simps) auto

lemma acc_Opt3:
  "acc (Opt (Grp n (Seq [Lit a, Opt (Lit b), Lit c])) # rs) s =
     (acc rs s \<or> (\<exists>s'. s = a @ c @ s' \<and> acc rs s') \<or>
      (\<exists>s'. s = a @ b @ c @ s' \<and> acc rs s'))"
  by (simp only: acc_simps) auto

lemma acc_url:
  "acc (Opt (Grp 1 (Seq [Lit ''http'', Opt (Lit ''s''), Lit ''://''])) #
        Opt (Grp 2 (Seq [Lit ''www'', Lit ''.''])) # path_rx) s =
     (\<exists>scheme \<in> {[], ''http://'', ''https://''}. \<exists>www \<in> {[], ''www.''}. \<exists>s'.
        s = scheme @ www @ s' \<and> path_ok s')"
  by (simp only: acc_Opt3 acc_Opt2 acc_path) auto

lemma ident_prefix:
  "(\<exists>ident rest. ident \<noteq> [] \<and> list_all is_id ident \<and> s = ident @ rest) =
   (\<exists>c t. is_id c \<and> s = c # t)"
proof
  assume "\<exists>ident rest. ident \<noteq> [] \<and> list_all is_id ident \<and> s = ident @ rest"
  then obtain ident rest where "ident \<noteq> []" "list_all is_id ident" "s = ident @ rest" by blast
  then show "\<exists>c t. is_id c \<and> s = c # t" by (cases ident) auto
next
  assume "\<exists>c t. is_id c \<and> s = c # t"
  then obtain c t where "s = c # t" "is_id c" by blast
  then have "[c] \<noteq> [] \<and> list_all is_id [c] \<and> s = [c] @ t" by simp
  then show "\<exists>ident rest. ident \<noteq> [] \<and> list_all is_id ident \<and> s = ident @ rest" by blast
qed

lemma ident_after:
  "(\<exists>c t. is_id c \<and> s = p @ c # t) =
   (\<exists>ident rest. ident \<noteq> [] \<and> list_all is_id ident \<and> s = p @ ident @ rest)"
proof -
  have "(\<exists>c t. is_id c \<and> s = p @ c # t) = (\<exists>x. s = p @ x \<and> (\<exists>c t. is_id c \<and> x = c # t))"
    by blast
  also have "\<dots> = (\<exists>x. s = p @ x \<and>
      (\<exists>ident rest. ident \<noteq> [] \<and> list_all is_id ident \<and> x = ident @ rest))"
    by (simp only: ident_prefix)
  also have "\<dots> = (\<exists>ident rest. ident \<noteq> [] \<and> list_all is_id ident \<and> s = p @ ident @ rest)"
    by blast
  finally show ?thesis .
qed

lemma path_ok_shape:
  "path_ok s =
     (\<exists>kind \<in> {''p'', ''reel'', ''reels'', ''tv''}. \<exists>ident rest.
        ident \<noteq> [] \<and> list_all is_id ident \<and>
        s = ''instagram.com/'' @ kind @ ''/'' @ ident @ rest)"
  using ident_after [of s "''instagram.com/p/''"] ident_after [of s "''instagram.com/reel/''"]
    ident_after [of s "''instagram.com/reels/''"] ident_after [of s "''instagram.com/tv/''"]
  unfolding path_ok_def by simp

lemma url_shape: "re_match INSTAGRAM_URL_RE u = instagram_shape u"
proof -
  have eq: "INSTAGRAM_URL_RE =
      Seq (Opt (Grp 1 (Seq [Lit ''http'', Opt (Lit ''s''), Lit ''://''])) #
        Opt (Grp 2 (Seq [Lit ''www'', Lit ''.''])) # path_rx)"
    by (simp add: INSTAGRAM_URL_RE_def path_rx_def)
  have "re_match INSTAGRAM_URL_RE u =
      (\<exists>scheme \<in> {[], ''http://'', ''https://''}. \<exists>www \<in> {[], ''www.''}. \<exists>s'.
        u = scheme @ www @ s' \<and> path_ok s')"
    unfolding eq re_match_acc acc_url ..
  also have "\<dots> = instagram_shape u"
    unfolding instagram_shape_def path_ok_shape by blast
  finally show ?thesis .
qed
lemma instagram_shapeI:
  assumes "scheme \<in> {'''', ''http://'', ''https://''}" and "www \<in> {'''', ''www.''}"
    and "kind \<in> {''p'', ''reel'', ''reels'', ''tv''}"
    and "ident \<noteq> []" and "list_all is_id ident"
  shows "instagram_shape (scheme @ www @ ''instagram.com/'' @ kind @ ''/'' @ ident @ rest)"
  unfolding instagram_shape_def using assms by blast

lemma inspect_fetches:
  "re_match INSTAGRAM_URL_RE u \<Longrightarrow> fst (instagram_inspect L u) = [u]"
  by (simp add: instagram_inspect_def split: fetch_result.splits)

lemma inspect_rejects:
  "\<not> re_match INSTAGRAM_URL_RE u \<Longrightarrow>
     instagram_inspect L u =
       ([], Inl (HTTPException 400 ''Please provide a valid Instagram post/reel URL.''))"
  by (simp add: instagram_inspect_def)

subsection \<open>The URL check\<close>

text \<open>
  C4, as amended. The check accepts every string made of an optional \<^verbatim>\<open>http://\<close> or
  \<^verbatim>\<open>https://\<close>, an optional \<^verbatim>\<open>www.\<close>, \<^verbatim>\<open>instagram.com/\<close>, one of \<^verbatim>\<open>p\<close>, \<^verbatim>\<open>reel\<close>,
  \<^verbatim>\<open>reels\<close>, \<^verbatim>\<open>tv\<close>, a slash and a non-empty identifier of letters of either case,
  digits, underscores and hyphens, whatever follows; the scheme may be left out. The
  scheme, the \<^verbatim>\<open>www.\<close>, the host and the path segment are in lower case.
\<close>

theorem url_check_accepts:
  assumes "scheme \<in> {'''', ''http://'', ''https://''}" and "www \<in> {'''', ''www.''}"
    and "kind \<in> {''p'', ''reel'', ''reels'', ''tv''}"
    and "ident \<noteq> []" and "list_all is_id ident"
  shows "re_match INSTAGRAM_URL_RE
           (scheme @ www @ ''instagram.com/'' @ kind @ ''/'' @ ident @ rest)"
  unfolding url_shape using assms by (rule instagram_shapeI)

theorem url_check_accepts_witness:
  "re_match INSTAGRAM_URL_RE ''instagram.com/tv/a_B-9/'' \<and>
   re_match INSTAGRAM_URL_RE ''http://www.instagram.com/reels/Cx9?igsh=1''"
proof -
  have id: "list_all is_id ''a_B-9''" "list_all is_id ''Cx9''"
    by (simp_all add: is_id_def in_range_def)
  show ?thesis
    using url_check_accepts [of "''''" "''''" "''tv''" "''a_B-9''" "''/''", OF _ _ _ _ id(1)]
      url_check_accepts [of "''http://''" "''www.''" "''reels''" "''Cx9''" "''?igsh=1''",
        OF _ _ _ _ id(2)]
    by simp
qed

text \<open>
  The check is not case-insensitive: a URL whose lower-case form has the shape, but
  whose path segment is written \<^verbatim>\<open>/P/\<close>, is refused with the 400 error, and so is one
  whose scheme and host are in upper case.
\<close>

theorem url_check_case_counterexample:
  "instagram_shape (ascii_lower ''https://www.instagram.com/P/abc/'') \<and>
   \<not> re_match INSTAGRAM_URL_RE ''https://www.instagram.com/P/abc/'' \<and>
   instagram_inspect (example_lib 200 '''') ''https://www.instagram.com/P/abc/'' =
     ([], Inl (HTTPException 400 ''Please provide a valid Instagram post/reel URL.'')) \<and>
   instagram_shape (ascii_lower ''HTTPS://WWW.INSTAGRAM.COM/p/abc/'') \<and>
   \<not> re_match INSTAGRAM_URL_RE ''HTTPS://WWW.INSTAGRAM.COM/p/abc/''"
proof -
  have "re_match INSTAGRAM_URL_RE (ascii_lower ''https://www.instagram.com/P/abc/'')"
    "re_match INSTAGRAM_URL_RE (ascii_lower ''HTTPS://WWW.INSTAGRAM.COM/p/abc/'')"
    by code_simp+
  moreover have "\<not> re_match INSTAGRAM_URL_RE ''https://www.instagram.com/P/abc/''"
    "\<not> re_match INSTAGRAM_URL_RE ''HTTPS://WWW.INSTAGRAM.COM/p/abc/''"
    by code_simp+
  ultimately show ?thesis
    by (simp add: url_shape inspect_rejects)
qed

text \<open>
  C5, as amended. Every \<^verbatim>\<open>https://www.instagram.com/p/<id>/\<close> with a non-empty
  identifier of letters, digits, underscores and hyphens passes the check, and the
  function goes on to fetch it. Every body URL that the request model accepts and whose
  normalised text, \<^verbatim>\<open>str(payload.url)\<close>, does not have the shape is refused with status
  400 and the message \<^verbatim>\<open>Please provide a valid Instagram post/reel URL.\<close>, and nothing
  is fetched; the function refuses so whatever string it is given. A body URL that the
  request model does not accept is refused with the validation error of the request,
  and nothing is fetched either.
\<close>

theorem url_check_rejects:
  "(ident \<noteq> [] \<and> list_all is_id ident \<longrightarrow>
      re_match INSTAGRAM_URL_RE (''https://www.instagram.com/p/'' @ ident @ ''/'') \<and>
      fst (instagram_inspect L (''https://www.instagram.com/p/'' @ ident @ ''/'')) =
        [''https://www.instagram.com/p/'' @ ident @ ''/'']) \<and>
   (HttpUrl L body_url = Some u \<and> \<not> instagram_shape u \<longrightarrow>
      post_inspect L body_url =
        ([], Inl (HTTPException 400 ''Please provide a valid Instagram post/reel URL.''))) \<and>
   (\<not> instagram_shape u \<longrightarrow>
      instagram_inspect L u =
        ([], Inl (HTTPException 400 ''Please provide a valid Instagram post/reel URL.''))) \<and>
   (HttpUrl L body_url = None \<longrightarrow> post_inspect L body_url = ([], Inl RequestValidationError))"
proof (intro conjI impI)
  assume a: "ident \<noteq> [] \<and> list_all is_id ident"
  have "instagram_shape (''https://'' @ ''www.'' @ ''instagram.com/'' @ ''p'' @ ''/'' @ ident @ ''/'')"
    using a by (intro instagram_shapeI) simp_all
  then show m: "re_match INSTAGRAM_URL_RE (''https://www.instagram.com/p/'' @ ident @ ''/'')"
    by (simp add: url_shape)
  show "fst (instagram_inspect L (''https://www.instagram.com/p/'' @ ident @ ''/'')) =
        [''https://www.instagram.com/p/'' @ ident @ ''/'']"
    using m by (rule inspect_fetches)
next
  assume "HttpUrl L body_url = Some u \<and> \<not> instagram_shape u"
  then show "post_inspect L body_url =
        ([], Inl (HTTPException 400 ''Please provide a valid Instagram post/reel URL.''))"
    by (simp add: post_inspect_def url_shape inspect_rejects)
next
  assume "\<not> instagram_shape u"
  then show "instagram_inspect L u =
        ([], Inl (HTTPException 400 ''Please provide a valid Instagram post/reel URL.''))"
    by (simp add: url_shape inspect_rejects)
next
  assume "HttpUrl L body_url = None"
  then show "post_inspect L body_url = ([], Inl RequestValidationError)"
    by (simp add: post_inspect_def)
qed

lemma not_shape_examples:
  "\<not> instagram_shape ''https://example.com/p/abc''"
  "\<not> instagram_shape ''https://instagram.com/notp/abc''"
  "\<not> instagram_shape ''''"
  unfolding url_shape [symmetric] by code_simp+

lemma example_urls_ok:
  "HttpUrl (example_lib 200 '''') ''https://example.com/p/abc'' = Some ''https://example.com/p/abc''"
  "HttpUrl (example_lib 200 '''') ''https://instagram.com/notp/abc'' =
     Some ''https://instagram.com/notp/abc''"
  "HttpUrl (example_lib 200 '''') ''HTTPS://WWW.INSTAGRAM.COM/p/abc/'' =
     Some ''https://www.instagram.com/p/abc/''"
  "HttpUrl (example_lib 200 '''') '''' = None"
  by code_simp+

theorem url_check_rejects_witness:
  "fst (instagram_inspect (example_lib 200 '''') ''https://www.instagram.com/p/abc/'') =
     [''https://www.instagram.com/p/abc/''] \<and>
   post_inspect (example_lib 200 '''') ''https://example.com/p/abc'' =
     ([], Inl (HTTPException 400 ''Please provide a valid Instagram post/reel URL.'')) \<and>
   post_inspect (example_lib 200 '''') ''https://instagram.com/notp/abc'' =
     ([], Inl (HTTPException 400 ''Please provide a valid Instagram post/reel URL.'')) \<and>
   instagram_inspect (example_lib 200 '''') '''' =
     ([], Inl (HTTPException 400 ''Please provide a valid Instagram post/reel URL.'')) \<and>
   fst (post_inspect (example_lib 200 '''') ''HTTPS://WWW.INSTAGRAM.COM/p/abc/'') =
     [''https://www.instagram.com/p/abc/'']"
proof -
  have id: "''abc'' \<noteq> [] \<and> list_all is_id ''abc''"
    by (simp add: is_id_def in_range_def)
  have "fst (post_inspect (example_lib 200 '''') ''HTTPS://WWW.INSTAGRAM.COM/p/abc/'') =
      fst (instagram_inspect (example_lib 200 '''') ''https://www.instagram.com/p/abc/'')"
    by (simp add: post_inspect_def example_urls_ok(3))
  then show ?thesis
    using url_check_rejects [of "''abc''" "example_lib 200 ''''" "''https://example.com/p/abc''"
        "''https://example.com/p/abc''"]
      url_check_rejects [of "''abc''" "example_lib 200 ''''" "''https://instagram.com/notp/abc''"
        "''https://instagram.com/notp/abc''"]
      url_check_rejects [of "''abc''" "example_lib 200 ''''" "''''" "''''"]
      id not_shape_examples example_urls_ok
    by simp
qed

text \<open>
  The claim as it stands fails on the empty string, one of its own examples: it does
  not have the shape, but the request model does not accept it, so the request ends in
  the validation error of the request and not in the 400 of the check.
\<close>

theorem url_check_empty_counterexample:
  "\<not> instagram_shape '''' \<and>
   post_inspect (example_lib 200 '''') '''' = ([], Inl RequestValidationError) \<and>
   post_inspect (example_lib 200 '''') '''' \<noteq>
     ([], Inl (HTTPException 400 ''Please provide a valid Instagram post/reel URL.''))"
  using not_shape_examples(3) example_urls_ok(4)
  by (simp add: post_inspect_def)

subsection \<open>The tags\<close>

lemma foldl_tags:
  "foldl (\<lambda>tags (k, c). tags(f k \<mapsto> g c)) t xs =
     t ++ map_of (rev (map (\<lambda>(k, c). (f k, g c)) xs))"
proof (induction xs arbitrary: t)
  case Nil
  show ?case by simp
next
  case (Cons x xs)
  obtain k c where x: "x = (k, c)" by (cases x)
  have "foldl (\<lambda>tags (k, c). tags(f k \<mapsto> g c)) t (x # xs) =
      foldl (\<lambda>tags (k, c). tags(f k \<mapsto> g c)) (t(f k \<mapsto> g c)) xs"
    using x by simp
  also have "\<dots> = t(f k \<mapsto> g c) ++ map_of (rev (map (\<lambda>(k, c). (f k, g c)) xs))"
    by (rule Cons)
  also have "\<dots> = t ++ map_of (rev (map (\<lambda>(k, c). (f k, g c)) xs) @ [(f k, g c)])"
    by (rule ext) (simp add: map_add_def split: option.splits)
  also have "rev (map (\<lambda>(k, c). (f k, g c)) xs) @ [(f k, g c)] =
      rev (map (\<lambda>(k, c). (f k, g c)) (x # xs))"
    using x by simp
  finally show ?case .
qed

lemma extract_meta_tags_map_of:
  "extract_meta_tags L html =
     map_of (rev (map (\<lambda>(k, c). (str_lower L k, html_unescape L c))
       (findall meta_pattern html @ findall name_pattern html)))"
  unfolding extract_meta_tags_def Let_def foldl_tags
  by (simp add: map_of_append)

lemma map_of_last:
  assumes "kvs = xs @ (k, v) # ys" and "k \<notin> fst ` set ys"
  shows "map_of (rev kvs) k = Some v"
proof -
  have "map_of (rev ys) k = None"
    using assms(2) by (simp add: map_of_eq_None_iff)
  then show ?thesis
    using assms(1) by (simp add: map_add_def)
qed

lemma str_lower_ascii: "list_all is_ascii s \<Longrightarrow> str_lower L s = ascii_lower s"
  by (simp add: str_lower_def)

text \<open>
  C7. Keys are the tag names lower-cased by \<^verbatim>\<open>str.lower\<close>. When the matches of the
  \<^verbatim>\<open>name\<close> scan end with a match for a key (no later \<^verbatim>\<open>name\<close> match has the same
  lower-cased key), the mapping holds the unescaped content of that match, whatever the
  \<^verbatim>\<open>property\<close> scan found. When the matches of the \<^verbatim>\<open>property\<close> scan end with a match
  for a key and no \<^verbatim>\<open>name\<close> match has that key, the mapping holds the unescaped content
  of that match.
\<close>

theorem last_tag_wins:
  "(findall name_pattern html = xs @ (k, c) # ys \<and>
    str_lower L k \<notin> (\<lambda>x. str_lower L (fst x)) ` set ys \<longrightarrow>
      extract_meta_tags L html (str_lower L k) = Some (html_unescape L c)) \<and>
   (findall meta_pattern html = xs @ (k, c) # ys \<and>
    str_lower L k \<notin> (\<lambda>x. str_lower L (fst x)) ` set ys \<and>
    str_lower L k \<notin> (\<lambda>x. str_lower L (fst x)) ` set (findall name_pattern html) \<longrightarrow>
      extract_meta_tags L html (str_lower L k) = Some (html_unescape L c))"
proof (intro conjI impI)
  let ?kv = "\<lambda>(k, c). (str_lower L k, html_unescape L c)"
  let ?ps = "findall meta_pattern html" and ?ns = "findall name_pattern html"
  have fst_kv: "\<And>zs. fst ` set (map ?kv zs) = (\<lambda>x. str_lower L (fst x)) ` set zs"
    by (simp add: image_image case_prod_beta)
  {
    assume a: "?ns = xs @ (k, c) # ys \<and> str_lower L k \<notin> (\<lambda>x. str_lower L (fst x)) ` set ys"
    then have "map ?kv (?ps @ ?ns) =
        (map ?kv ?ps @ map ?kv xs) @ (str_lower L k, html_unescape L c) # map ?kv ys"
      by simp
    moreover have "str_lower L k \<notin> fst ` set (map ?kv ys)"
      using a by (simp only: fst_kv) simp
    ultimately show "extract_meta_tags L html (str_lower L k) = Some (html_unescape L c)"
      unfolding extract_meta_tags_map_of by (rule map_of_last)
  next
    assume a: "?ps = xs @ (k, c) # ys \<and>
      str_lower L k \<notin> (\<lambda>x. str_lower L (fst x)) ` set ys \<and>
      str_lower L k \<notin> (\<lambda>x. str_lower L (fst x)) ` set ?ns"
    then have "map ?kv (?ps @ ?ns) =
        map ?kv xs @ (str_lower L k, html_unescape L c) # map ?kv (ys @ ?ns)"
      by simp
    moreover have "str_lower L k \<notin> fst ` set (map ?kv (ys @ ?ns))"
      using a by (simp only: fst_kv) auto
    ultimately show "extract_meta_tags L html (str_lower L k) = Some (html_unescape L c)"
      unfolding extract_meta_tags_map_of by (rule map_of_last)
  }
qed

definition tags_example :: string where
  \<open>tags_example =
     ''<META Property="OG:Video" content='v1'><meta NAME="Og:VIDEO" content="v2">'' @
     ''<meta property="og:video" content="v3"><meta property="OG:X" content="v4">''\<close>

lemma tags_example_scans:
  "findall meta_pattern tags_example =
     [(''OG:Video'', ''v1''), (''og:video'', ''v3''), (''OG:X'', ''v4'')]"
  "findall name_pattern tags_example = [(''Og:VIDEO'', ''v2'')]"
  by code_simp+

theorem last_tag_wins_witness:
  "extract_meta_tags (example_lib 200 '''') tags_example ''og:video'' = Some ''v2'' \<and>
   extract_meta_tags (example_lib 200 '''') tags_example ''og:x'' = Some ''v4'' \<and>
   extract_meta_tags (example_lib 200 '''') tags_example ''OG:X'' = None"
proof -
  have l: "str_lower (example_lib 200 '''') ''Og:VIDEO'' = ''og:video''"
    "str_lower (example_lib 200 '''') ''OG:X'' = ''og:x''"
    "str_lower (example_lib 200 '''') ''OG:Video'' = ''og:video''"
    "str_lower (example_lib 200 '''') ''og:video'' = ''og:video''"
    by code_simp+
  have u: "\<And>s. html_unescape (example_lib 200 '''') s = s"
    by (simp add: example_lib_def)
  have none: "extract_meta_tags (example_lib 200 '''') tags_example ''OG:X'' = None"
    by (simp add: extract_meta_tags_map_of tags_example_scans l)
  show ?thesis
    using last_tag_wins [of tags_example "[]" "''Og:VIDEO''" "''v2''" "[]" "example_lib 200 ''''"]
      last_tag_wins [of tags_example "[(''OG:Video'', ''v1''), (''og:video'', ''v3'')]"
        "''OG:X''" "''v4''" "[]" "example_lib 200 ''''"]
    by (simp add: tags_example_scans l u none)
qed

subsection \<open>The assembled list\<close>

lemma inline_scan_prefix:
  "inline_scan L img media ms = Inr media' \<Longrightarrow> \<exists>rest. media' = media @ rest"
proof (induction ms arbitrary: media)
  case Nil
  then show ?case by simp
next
  case (Cons m ms)
  from Cons.prems obtain media1 where
    s: "inline_step L img media m = Inr media1" and r: "inline_scan L img media1 ms = Inr media'"
    by (auto split: sum.splits)
  from Cons.IH [OF r] obtain rest where "media' = media1 @ rest" by blast
  with inline_step_cases [OF s] show ?case by auto
qed

lemma og_video_cases:
  "(og_video tags = Some v \<and> v \<noteq> []) =
     (tags ''og:video'' = Some v \<and> v \<noteq> [] \<or>
      \<not> truthy (tags ''og:video'') \<and> tags ''twitter:player:stream'' = Some v \<and> v \<noteq> [])"
  by (auto simp: og_video_def py_or_def truthy_def split: option.splits)

lemma og_image_cases:
  "(og_image tags = Some i \<and> i \<noteq> []) =
     (tags ''og:image'' = Some i \<and> i \<noteq> [] \<or>
      \<not> truthy (tags ''og:image'') \<and> tags ''twitter:image'' = Some i \<and> i \<noteq> [])"
  by (auto simp: og_image_def py_or_def truthy_def split: option.splits)

lemma truthy_py_or: "truthy (py_or a b) = (truthy a \<or> truthy b)"
  by (simp add: py_or_def)

lemma primary_media_video:
  assumes "og_video tags = Some v" and "v \<noteq> []"
  shows "primary_media L tags =
     (case new_MediaItem L ''video'' v (og_image tags) of
        Inl e \<Rightarrow> Inl e | Inr item \<Rightarrow> Inr [item])"
  using assms by (auto simp: primary_media_def split: sum.splits option.splits)

lemma primary_media_image:
  assumes "\<not> truthy (og_video tags)" and "og_image tags = Some i" and "i \<noteq> []"
  shows "primary_media L tags =
     (case new_MediaItem L ''image'' i (Some i) of
        Inl e \<Rightarrow> Inl e | Inr item \<Rightarrow> Inr [item])"
  using assms by (auto simp: primary_media_def truthy_def split: sum.splits option.splits)

lemma new_MediaItem_fields:
  assumes "new_MediaItem L t u th = Inr item"
  shows "type item = t" and "HttpUrl L u = Some (str (url item))"
    and "th = None \<longrightarrow> thumbnail item = None"
    and "\<forall>i. th = Some i \<longrightarrow> (\<exists>j. HttpUrl L i = Some j \<and> thumbnail item = Some (Url j))"
  using assms
  by (auto simp: new_MediaItem_def validate_url_def split: option.splits sum.splits)

lemma assemble_primary:
  "primary_media L (extract_meta_tags L html) = Inr media \<Longrightarrow>
     assemble L html =
       inline_scan L (og_image (extract_meta_tags L html)) media (finditer inline_pattern html)"
  by (simp add: assemble_def Let_def)

lemma assemble_primary_error:
  "primary_media L (extract_meta_tags L html) = Inl e \<Longrightarrow> assemble L html = Inl e"
  by (simp add: assemble_def Let_def)

text \<open>
  C1, as amended. Let the extracted tags hold a non-empty \<^verbatim>\<open>og:video\<close> value \<open>v\<close>, or
  no such value and a non-empty \<^verbatim>\<open>twitter:player:stream\<close> value \<open>v\<close>. If pydantic
  accepts \<open>v\<close> and the primary image, the item built from them has type \<^verbatim>\<open>video\<close>, the
  normalised \<open>v\<close> as URL and the normalised primary image (or nothing) as thumbnail; the
  list before the inline scan is that one item; the assembled list is what the inline
  scan makes of that list, so it starts with that item and the scan only appends to it.
  If pydantic refuses one of the two, no list is assembled: the request ends in the
  validation error.
\<close>

theorem primary_video_first:
  assumes "tags = extract_meta_tags L html"
    and "tags ''og:video'' = Some v \<and> v \<noteq> [] \<or>
      \<not> truthy (tags ''og:video'') \<and> tags ''twitter:player:stream'' = Some v \<and> v \<noteq> []"
  shows "(\<forall>item. new_MediaItem L ''video'' v (og_image tags) = Inr item \<longrightarrow>
            type item = ''video'' \<and> HttpUrl L v = Some (str (url item)) \<and>
            (og_image tags = None \<longrightarrow> thumbnail item = None) \<and>
            (\<forall>i. og_image tags = Some i \<longrightarrow>
               (\<exists>j. HttpUrl L i = Some j \<and> thumbnail item = Some (Url j))) \<and>
            primary_media L tags = Inr [item] \<and>
            assemble L html =
              inline_scan L (og_image tags) [item] (finditer inline_pattern html) \<and>
            (\<forall>media. assemble L html = Inr media \<longrightarrow> (\<exists>rest. media = item # rest))) \<and>
         (\<forall>e. new_MediaItem L ''video'' v (og_image tags) = Inl e \<longrightarrow> assemble L html = Inl e)"
proof (intro conjI allI impI)
  from assms(2) have v: "og_video tags = Some v" "v \<noteq> []"
    using og_video_cases [of tags v] by auto
  note pm = primary_media_video [OF v, of L]
  {
    fix item
    assume n: "new_MediaItem L ''video'' v (og_image tags) = Inr item"
    from new_MediaItem_fields [OF n]
    show "type item = ''video''" and "HttpUrl L v = Some (str (url item))"
      and "og_image tags = None \<Longrightarrow> thumbnail item = None"
      and "\<And>i. og_image tags = Some i \<Longrightarrow>
        \<exists>j. HttpUrl L i = Some j \<and> thumbnail item = Some (Url j)"
      by auto
    from n show p: "primary_media L tags = Inr [item]"
      by (simp add: pm)
    from p show a: "assemble L html =
        inline_scan L (og_image tags) [item] (finditer inline_pattern html)"
      unfolding assms(1) by (rule assemble_primary)
    fix media
    assume "assemble L html = Inr media"
    with a have "inline_scan L (og_image tags) [item] (finditer inline_pattern html) = Inr media"
      by simp
    from inline_scan_prefix [OF this] show "\<exists>rest. media = item # rest"
      by auto
  next
    fix e
    assume "new_MediaItem L ''video'' v (og_image tags) = Inl e"
    then have "primary_media L tags = Inl e"
      by (simp add: pm)
    then show "assemble L html = Inl e"
      unfolding assms(1) by (rule assemble_primary_error)
  }
qed

definition video_example :: string where
  \<open>video_example =
     ''<meta property="og:video" content="https://x/video.mp4">'' @
     ''<meta property="og:image" content="https://x/thumb.jpg">''\<close>

lemma video_example_scans:
  "findall meta_pattern video_example =
     [(''og:video'', ''https://x/video.mp4''), (''og:image'', ''https://x/thumb.jpg'')]"
  "findall name_pattern video_example = []"
  "finditer inline_pattern video_example = []"
  by code_simp+

lemma example_lib_fields:
  "html_unescape (example_lib c b) s = s"
  "HttpUrl (example_lib c b) = example_HttpUrl"
  "unicode_lower (example_lib c b) s = s"
  by (simp_all add: example_lib_def)

lemma example_keys:
  "str_lower L ''og:video'' = ''og:video''"
  "str_lower L ''og:image'' = ''og:image''"
  by (simp_all add: str_lower_def is_ascii_def ascii_lower_def lower_char_def in_range_def)

lemma example_normal:
  "example_HttpUrl ''https://x/video.mp4'' = Some ''https://x/video.mp4''"
  "example_HttpUrl ''https://x/thumb.jpg'' = Some ''https://x/thumb.jpg''"
  "example_HttpUrl ''https://x/pic.jpg'' = Some ''https://x/pic.jpg''"
  "example_HttpUrl ''https://x/v2.mp4'' = Some ''https://x/v2.mp4''"
  "example_HttpUrl ''https://x/a.jpg'' = Some ''https://x/a.jpg''"
  "example_HttpUrl ''https://x'' = Some ''https://x/''"
  "example_HttpUrl ''https://X.COM/A.jpg'' = Some ''https://x.com/A.jpg''"
  by code_simp+

theorem primary_video_first_witness:
  "assemble (example_lib 200 video_example) video_example =
     Inr [\<lparr>type = ''video'', url = Url ''https://x/video.mp4'',
           thumbnail = Some (Url ''https://x/thumb.jpg'')\<rparr>]"
proof -
  let ?L = "example_lib 200 video_example"
  let ?item = "\<lparr>type = ''video'', url = Url ''https://x/video.mp4'',
           thumbnail = Some (Url ''https://x/thumb.jpg'')\<rparr>"
  have t: "extract_meta_tags ?L video_example =
      [''og:video'' \<mapsto> ''https://x/video.mp4'', ''og:image'' \<mapsto> ''https://x/thumb.jpg'']"
    by (simp add: extract_meta_tags_map_of video_example_scans example_lib_fields example_keys)
  have i: "og_image (extract_meta_tags ?L video_example) = Some ''https://x/thumb.jpg''"
    by (simp add: t og_image_def py_or_def truthy_def)
  have n: "new_MediaItem ?L ''video'' ''https://x/video.mp4''
      (og_image (extract_meta_tags ?L video_example)) = Inr ?item"
    by (simp add: i new_MediaItem_def validate_url_def example_lib_fields example_normal)
  from primary_video_first [OF refl, of ?L video_example "''https://x/video.mp4''"] n
  have "assemble ?L video_example =
      inline_scan ?L (og_image (extract_meta_tags ?L video_example)) [?item]
        (finditer inline_pattern video_example)"
    by (simp add: t)
  then show ?thesis
    by (simp add: video_example_scans)
qed

text \<open>
  The claim as it stands fails where pydantic changes the value: for the tag value
  \<^verbatim>\<open>https://x\<close> the URL of the first item is \<^verbatim>\<open>https://x/\<close>, not the tag value.
\<close>

definition bare_video_example :: string where
  \<open>bare_video_example = ''<meta property="og:video" content="https://x">''\<close>

theorem primary_video_normalised_counterexample:
  "extract_meta_tags (example_lib 200 bare_video_example) bare_video_example ''og:video'' =
     Some ''https://x'' \<and>
   assemble (example_lib 200 bare_video_example) bare_video_example =
     Inr [\<lparr>type = ''video'', url = Url ''https://x/'', thumbnail = None\<rparr>]"
  by code_simp

subsection \<open>The primary image alone\<close>

lemma new_image_item:
  "new_MediaItem L ''image'' i (Some i) =
     (case HttpUrl L i of
        None \<Rightarrow> Inl ValidationError
      | Some n \<Rightarrow> Inr \<lparr>type = ''image'', url = Url n, thumbnail = Some (Url n)\<rparr>)"
  by (simp add: new_MediaItem_def validate_url_def split: option.splits)

text \<open>
  C9, as amended. Let the extracted tags hold no non-empty \<^verbatim>\<open>og:video\<close> or
  \<^verbatim>\<open>twitter:player:stream\<close> value, and a non-empty \<^verbatim>\<open>og:image\<close> value \<open>i\<close>, or no such
  value and a non-empty \<^verbatim>\<open>twitter:image\<close> value \<open>i\<close>. If pydantic accepts \<open>i\<close> and
  builds the URL \<open>n\<close> from it, the list before the inline scan is exactly the one image
  item of URL \<open>n\<close> and thumbnail \<open>n\<close>; the assembled list is what the inline scan makes
  of that list, and it is that list when the page has no inline match. If pydantic
  refuses \<open>i\<close>, no list is assembled: the request ends in the validation error.
\<close>

theorem primary_image_only:
  assumes "tags = extract_meta_tags L html"
    and "\<not> truthy (tags ''og:video'') \<and> \<not> truthy (tags ''twitter:player:stream'')"
    and "tags ''og:image'' = Some i \<and> i \<noteq> [] \<or>
      \<not> truthy (tags ''og:image'') \<and> tags ''twitter:image'' = Some i \<and> i \<noteq> []"
  shows "(\<forall>n. HttpUrl L i = Some n \<longrightarrow>
            primary_media L tags =
              Inr [\<lparr>type = ''image'', url = Url n, thumbnail = Some (Url n)\<rparr>] \<and>
            assemble L html =
              inline_scan L (Some i)
                [\<lparr>type = ''image'', url = Url n, thumbnail = Some (Url n)\<rparr>]
                (finditer inline_pattern html) \<and>
            (finditer inline_pattern html = [] \<longrightarrow>
               assemble L html =
                 Inr [\<lparr>type = ''image'', url = Url n, thumbnail = Some (Url n)\<rparr>])) \<and>
         (HttpUrl L i = None \<longrightarrow> assemble L html = Inl ValidationError)"
proof -
  from assms(2) have nv: "\<not> truthy (og_video tags)"
    by (simp add: og_video_def truthy_py_or)
  from assms(3) have i: "og_image tags = Some i" "i \<noteq> []"
    using og_image_cases [of tags i] by auto
  note pm = primary_media_image [OF nv i, of L]
  have refused: "assemble L html = Inl ValidationError" if "HttpUrl L i = None"
  proof -
    from that have "primary_media L tags = Inl ValidationError"
      by (simp add: pm new_image_item)
    then show ?thesis
      unfolding assms(1) by (rule assemble_primary_error)
  qed
  have accepted:
    "primary_media L tags =
       Inr [\<lparr>type = ''image'', url = Url n, thumbnail = Some (Url n)\<rparr>] \<and>
     assemble L html =
       inline_scan L (Some i)
         [\<lparr>type = ''image'', url = Url n, thumbnail = Some (Url n)\<rparr>]
         (finditer inline_pattern html) \<and>
     (finditer inline_pattern html = [] \<longrightarrow>
        assemble L html =
          Inr [\<lparr>type = ''image'', url = Url n, thumbnail = Some (Url n)\<rparr>])"
    if n: "HttpUrl L i = Some n" for n
  proof -
    from n have p: "primary_media L tags =
        Inr [\<lparr>type = ''image'', url = Url n, thumbnail = Some (Url n)\<rparr>]"
      by (simp add: pm new_image_item)
    from p have "assemble L html =
        inline_scan L (og_image tags)
          [\<lparr>type = ''image'', url = Url n, thumbnail = Some (Url n)\<rparr>]
          (finditer inline_pattern html)"
      unfolding assms(1) by (rule assemble_primary)
    with p i(1) show ?thesis by simp
  qed
  from refused accepted show ?thesis by blast
qed

definition image_example :: string where
  \<open>image_example = ''<meta property="og:image" content="https://x/pic.jpg">''\<close>

lemma image_example_scans:
  "findall meta_pattern image_example = [(''og:image'', ''https://x/pic.jpg'')]"
  "findall name_pattern image_example = []"
  "finditer inline_pattern image_example = []"
  by code_simp+

theorem primary_image_only_witness:
  "assemble (example_lib 200 image_example) image_example =
     Inr [\<lparr>type = ''image'', url = Url ''https://x/pic.jpg'',
           thumbnail = Some (Url ''https://x/pic.jpg'')\<rparr>]"
proof -
  let ?L = "example_lib 200 image_example"
  have t: "extract_meta_tags ?L image_example = [''og:image'' \<mapsto> ''https://x/pic.jpg'']"
    by (simp add: extract_meta_tags_map_of image_example_scans example_lib_fields example_keys)
  show ?thesis
    using primary_image_only [OF refl, of ?L image_example "''https://x/pic.jpg''"]
      image_example_scans(3)
    by (simp add: t truthy_def example_lib_fields example_normal)
qed

text \<open>
  The claim as it stands fails where pydantic changes the value: for the tag value
  \<^verbatim>\<open>https://x\<close> the item has the URL and the thumbnail \<^verbatim>\<open>https://x/\<close>, not the tag
  value.
\<close>

definition bare_image_example :: string where
  \<open>bare_image_example = ''<meta property="og:image" content="https://x">''\<close>

theorem primary_image_normalised_counterexample:
  "extract_meta_tags (example_lib 200 bare_image_example) bare_image_example ''og:image'' =
     Some ''https://x'' \<and>
   extract_meta_tags (example_lib 200 bare_image_example) bare_image_example ''og:video'' =
     None \<and>
   assemble (example_lib 200 bare_image_example) bare_image_example =
     Inr [\<lparr>type = ''image'', url = Url ''https://x/'', thumbnail = Some (Url ''https://x/'')\<rparr>]"
  by code_simp

subsection \<open>The inline scan\<close>


lemma inline_step_appends: "inline_step L img media m \<noteq> Inr media"
proof
  assume "inline_step L img media m = Inr media"
  from inline_step_cases [OF this] show False by simp
qed




subsection \<open>The same inline value twice\<close>

definition duplicate_example :: string where
  \<open>duplicate_example =
     ''{"display_url":"'' @ escaped_scheme @ ''x'' @ [backslash] @ ''/a.jpg",'' @
     ''"display_url":"'' @ escaped_scheme @ ''x'' @ [backslash] @ ''/a.jpg"}''\<close>

definition primary_duplicate_example :: string where
  \<open>primary_duplicate_example =
     ''<meta property="og:image" content="https://x/a.jpg">'' @
     ''{"display_url":"'' @ escaped_scheme @ ''x'' @ [backslash] @ ''/a.jpg"}''\<close>

text \<open>
  C2, what the code does. The test of lines 144 and 148 compares the URL object of each
  item with the candidate string, and the two are never equal: the step skips no
  candidate, it appends an item or raises. On the page with the same \<^verbatim>\<open>display_url\<close>
  value twice the scan finds the value twice and the assembled list has two image items
  of the same URL; on the page with an \<^verbatim>\<open>og:image\<close> tag and a \<^verbatim>\<open>display_url\<close> of the same
  URL the list has the primary item and the inline item of that URL.
\<close>

theorem duplicate_kept:
  "inline_step L img media m \<noteq> Inr media \<and>
   findall inline_pattern duplicate_example =
     [(''display_url'', escaped_scheme @ ''x'' @ [backslash] @ ''/a.jpg''),
      (''display_url'', escaped_scheme @ ''x'' @ [backslash] @ ''/a.jpg'')] \<and>
   assemble (example_lib 200 duplicate_example) duplicate_example =
     Inr [\<lparr>type = ''image'', url = Url ''https://x/a.jpg'',
           thumbnail = Some (Url ''https://x/a.jpg'')\<rparr>,
          \<lparr>type = ''image'', url = Url ''https://x/a.jpg'',
           thumbnail = Some (Url ''https://x/a.jpg'')\<rparr>] \<and>
   assemble (example_lib 200 primary_duplicate_example) primary_duplicate_example =
     Inr [\<lparr>type = ''image'', url = Url ''https://x/a.jpg'',
           thumbnail = Some (Url ''https://x/a.jpg'')\<rparr>,
          \<lparr>type = ''image'', url = Url ''https://x/a.jpg'',
           thumbnail = Some (Url ''https://x/a.jpg'')\<rparr>]"
proof (intro conjI)
  show "inline_step L img media m \<noteq> Inr media"
    by (rule inline_step_appends)
qed code_simp+

subsection \<open>An inline video after the primary video\<close>





subsection \<open>The shape of the items\<close>

text \<open>\<open>th\<close> is the thumbnail of a video item built with the primary image \<open>img\<close>: nothing,
  or the URL that pydantic builds from the value.\<close>

definition video_thumbnail :: "lib \<Rightarrow> string option \<Rightarrow> Url option \<Rightarrow> bool" where
  "video_thumbnail L img th =
     (case img of
        None \<Rightarrow> th = None
      | Some i \<Rightarrow> (case HttpUrl L i of None \<Rightarrow> False | Some j \<Rightarrow> th = Some (Url j)))"

definition item_ok :: "lib \<Rightarrow> string option \<Rightarrow> MediaItem \<Rightarrow> bool" where
  "item_ok L img x =
     (type x = ''video'' \<and> video_thumbnail L img (thumbnail x) \<or>
      type x = ''image'' \<and> thumbnail x = Some (url x))"

lemma new_MediaItem_ok:
  "new_MediaItem L ''video'' u img = Inr item \<Longrightarrow> item_ok L img item"
  "new_MediaItem L ''image'' u (Some u) = Inr item \<Longrightarrow> item_ok L img item"
  by (auto simp: new_MediaItem_def validate_url_def item_ok_def video_thumbnail_def
      split: option.splits sum.splits)

lemma primary_media_ok:
  "primary_media L tags = Inr media \<Longrightarrow> list_all (item_ok L (og_image tags)) media"
  by (auto simp: primary_media_def split: option.splits if_splits sum.splits
      dest: new_MediaItem_ok)

lemma inline_step_ok:
  "inline_step L img media m = Inr media' \<Longrightarrow> list_all (item_ok L img) media \<Longrightarrow>
     list_all (item_ok L img) media'"
  by (auto simp: inline_step_def Let_def split: option.splits if_splits sum.splits
      dest: new_MediaItem_ok)

lemma inline_scan_ok:
  "inline_scan L img media ms = Inr media' \<Longrightarrow> list_all (item_ok L img) media \<Longrightarrow>
     list_all (item_ok L img) media'"
proof (induction ms arbitrary: media)
  case Nil
  then show ?case by simp
next
  case (Cons m ms)
  from Cons.prems(1) obtain media1 where
    s: "inline_step L img media m = Inr media1" and r: "inline_scan L img media1 ms = Inr media'"
    by (auto split: sum.splits)
  show ?case
    by (rule Cons.IH [OF r inline_step_ok [OF s Cons.prems(2)]])
qed

lemma assemble_ok:
  "assemble L html = Inr media \<Longrightarrow>
     list_all (item_ok L (og_image (extract_meta_tags L html))) media"
  by (auto simp: assemble_def Let_def split: sum.splits
      dest: primary_media_ok inline_scan_ok)

lemma inspect_returns:
  assumes "instagram_inspect L u = (log, Inr media)"
  shows "\<exists>html. requests_get L u = Response 200 html \<and> assemble L html = Inr media"
  using assms
  by (auto simp: instagram_inspect_def parse_page_def
      split: if_splits fetch_result.splits sum.splits)

lemma og_image_if:
  "og_image tags =
     (if truthy (tags ''og:image'') then tags ''og:image'' else tags ''twitter:image'')"
  by (simp add: og_image_def py_or_def)

text \<open>
  C10, as amended. When the function returns a list for a page, the type of every item
  is \<^verbatim>\<open>video\<close> or \<^verbatim>\<open>image\<close>, the thumbnail of every image item is its own URL, and the
  thumbnail of every video item is the URL that pydantic builds from the primary image of
  the page (the \<^verbatim>\<open>og:image\<close> value if it is non-empty, else the \<^verbatim>\<open>twitter:image\<close>
  value), and absent when the page has no primary image, as when the tags have neither.
\<close>

theorem item_shape:
  assumes "instagram_inspect L u = (log, Inr media)"
    and "requests_get L u = Response status_code html"
    and "tags = extract_meta_tags L html"
    and "primary_image =
      (if truthy (tags ''og:image'') then tags ''og:image'' else tags ''twitter:image'')"
  shows "\<forall>x \<in> set media.
           (type x = ''video'' \<or> type x = ''image'') \<and>
           (type x = ''image'' \<longrightarrow> thumbnail x = Some (url x)) \<and>
           (type x = ''video'' \<longrightarrow>
              (\<forall>i. primary_image = Some i \<longrightarrow>
                 (\<exists>j. HttpUrl L i = Some j \<and> thumbnail x = Some (Url j))) \<and>
              (primary_image = None \<longrightarrow> thumbnail x = None) \<and>
              (tags ''og:image'' = None \<and> tags ''twitter:image'' = None \<longrightarrow>
                 thumbnail x = None))"
proof
  fix x
  assume x: "x \<in> set media"
  from inspect_returns [OF assms(1)] assms(2) have "assemble L html = Inr media"
    by auto
  from assemble_ok [OF this] have "list_all (item_ok L (og_image tags)) media"
    by (simp add: assms(3))
  with x have k: "item_ok L primary_image x"
    by (simp add: list_all_iff og_image_if assms(4))
  have n: "primary_image = None"
    if "tags ''og:image'' = None \<and> tags ''twitter:image'' = None"
    using that by (simp add: assms(4))
  from k n show "(type x = ''video'' \<or> type x = ''image'') \<and>
           (type x = ''image'' \<longrightarrow> thumbnail x = Some (url x)) \<and>
           (type x = ''video'' \<longrightarrow>
              (\<forall>i. primary_image = Some i \<longrightarrow>
                 (\<exists>j. HttpUrl L i = Some j \<and> thumbnail x = Some (Url j))) \<and>
              (primary_image = None \<longrightarrow> thumbnail x = None) \<and>
              (tags ''og:image'' = None \<and> tags ''twitter:image'' = None \<longrightarrow>
                 thumbnail x = None))"
    by (auto simp: item_ok_def video_thumbnail_def split: option.splits)
qed

definition mixed_example :: string where
  \<open>mixed_example =
     ''<meta property="og:image" content="http://i">'' @
     ''"video_url":"http:'' @ [backslash] @ ''/'' @ [backslash] @ ''/v"''\<close>

lemma mixed_example_inspect:
  "instagram_inspect (example_lib 200 mixed_example) example_url =
     ([example_url],
      Inr [\<lparr>type = ''image'', url = Url ''http://i/'', thumbnail = Some (Url ''http://i/'')\<rparr>,
           \<lparr>type = ''video'', url = Url ''http://v/'', thumbnail = Some (Url ''http://i/'')\<rparr>])"
  by code_simp

lemma mixed_example_tags:
  "extract_meta_tags (example_lib 200 mixed_example) mixed_example ''og:image'' =
     Some ''http://i''"
  by code_simp

theorem item_shape_witness:
  "instagram_inspect (example_lib 200 mixed_example) example_url =
     ([example_url],
      Inr [\<lparr>type = ''image'', url = Url ''http://i/'', thumbnail = Some (Url ''http://i/'')\<rparr>,
           \<lparr>type = ''video'', url = Url ''http://v/'', thumbnail = Some (Url ''http://i/'')\<rparr>]) \<and>
   extract_meta_tags (example_lib 200 mixed_example) mixed_example ''og:image'' =
     Some ''http://i'' \<and>
   (\<exists>j. HttpUrl (example_lib 200 mixed_example) ''http://i'' = Some j \<and>
      Some (Url ''http://i/'') = Some (Url j))"
  using item_shape [OF mixed_example_inspect example_lib_get refl refl]
    mixed_example_inspect mixed_example_tags
  by (simp add: truthy_def)

text \<open>
  The claim as it stands fails where pydantic changes the value: on a page whose
  \<^verbatim>\<open>og:image\<close> value is \<^verbatim>\<open>https://X.COM/A.jpg\<close> the thumbnail of the video item is
  \<^verbatim>\<open>https://x.com/A.jpg\<close>, not the primary image value.
\<close>

definition upper_image_example :: string where
  \<open>upper_image_example =
     ''<meta property="og:video" content="https://x/video.mp4">'' @
     ''<meta property="og:image" content="https://X.COM/A.jpg">''\<close>

theorem item_shape_normalised_counterexample:
  "og_image (extract_meta_tags (example_lib 200 upper_image_example) upper_image_example) =
     Some ''https://X.COM/A.jpg'' \<and>
   instagram_inspect (example_lib 200 upper_image_example) example_url =
     ([example_url],
      Inr [\<lparr>type = ''video'', url = Url ''https://x/video.mp4'',
            thumbnail = Some (Url ''https://x.com/A.jpg'')\<rparr>])"
  by code_simp

end
